theory Spec2Isabelle
  imports Main "HOL-Library.Word"
begin

unbundle bit_operations_syntax

section \<open>The Rust ponyfill and the key codec\<close>

text \<open>
  The codec is a port of Deno's \<^verbatim>\<open>ext/kv/codec.rs\<close> onto a small "rs-ponyfill" module.
  An \<^verbatim>\<open>f64\<close> is carried as its IEEE-754 bit pattern, a byte vector as a list of
  8-bit words, a Rust \<^verbatim>\<open>String\<close> as the bytes \<^verbatim>\<open>as_bytes\<close> returns.
\<close>

type_synonym u8 = "8 word"
type_synonym u64 = "64 word"
type_synonym f64 = "64 word"

definition from_bits :: "u64 \<Rightarrow> f64" where
  "from_bits bits = bits"

definition is_nan :: "f64 \<Rightarrow> bool" where
  \<comment> \<open>\<^verbatim>\<open>isNaN(+this)\<close>: all exponent bits set and a fraction that is not zero.\<close>
  "is_nan n = (drop_bit 52 n AND 0x7ff = 0x7ff \<and> n AND 0xfffffffffffff \<noteq> 0)"

definition lt_zero :: "f64 \<Rightarrow> bool" where
  \<comment> \<open>The JavaScript comparison \<^verbatim>\<open>x < 0\<close> on a number: false on NaN and on both zeros.\<close>
  "lt_zero n = (\<not> is_nan n \<and> bit n 63 \<and> n \<noteq> 0x8000000000000000)"

definition is_sign_negative :: "f64 \<Rightarrow> bool" where
  \<comment> \<open>\<^verbatim>\<open>return +this < 0;\<close>\<close>
  "is_sign_negative n = lt_zero n"

definition CANONICAL_NAN_POS :: u64 where
  "CANONICAL_NAN_POS = 0x7ff8000000000000"

definition CANONICAL_NAN_NEG :: u64 where
  "CANONICAL_NAN_NEG = 0xfff8000000000000"

definition canonicalize_f64 :: "f64 \<Rightarrow> f64" where
  "canonicalize_f64 n =
     (if is_nan n then
        (if is_sign_negative n then from_bits CANONICAL_NAN_NEG
         else from_bits CANONICAL_NAN_POS)
      else n)"


subsection \<open>Key parts and their order (interface)\<close>

datatype KeyPart =
    KeyPart_Bytes "u8 list"
  | KeyPart_String "u8 list"
  | KeyPart_Int int
  | KeyPart_Float f64
  | KeyPart_False
  | KeyPart_True

type_synonym Key = "KeyPart list"

datatype Ordering = Less | Equal | Greater

definition cmp_ord :: "'a::linorder \<Rightarrow> 'a \<Rightarrow> Ordering" where
  \<comment> \<open>Rust's \<^verbatim>\<open>Ord::cmp\<close> on a primitive type.\<close>
  "cmp_ord a b = (if a < b then Less else if a = b then Equal else Greater)"

fun cmp_vec :: "('a \<Rightarrow> 'a \<Rightarrow> Ordering) \<Rightarrow> 'a list \<Rightarrow> 'a list \<Rightarrow> Ordering" where
  \<comment> \<open>Rust's lexicographic \<^verbatim>\<open>cmp\<close> on vectors and slices.\<close>
  "cmp_vec c [] [] = Equal"
| "cmp_vec c [] (y # ys) = Less"
| "cmp_vec c (x # xs) [] = Greater"
| "cmp_vec c (x # xs) (y # ys) =
     (case c x y of Equal \<Rightarrow> cmp_vec c xs ys | Less \<Rightarrow> Less | Greater \<Rightarrow> Greater)"

definition total_cmp :: "f64 \<Rightarrow> f64 \<Rightarrow> Ordering" where
  \<comment> \<open>Rust's \<^verbatim>\<open>f64::total_cmp\<close>: flip the low 63 bits of a negative pattern, then
      compare as signed 64-bit integers.\<close>
  "total_cmp a b =
     (let left = (if bit a 63 then a XOR 0x7fffffffffffffff else a);
          right = (if bit b 63 then b XOR 0x7fffffffffffffff else b)
      in cmp_ord (sint left) (sint right))"

fun tag_ordering :: "KeyPart \<Rightarrow> u8" where
  "tag_ordering (KeyPart_Bytes _) = 0"
| "tag_ordering (KeyPart_String _) = 1"
| "tag_ordering (KeyPart_Int _) = 2"
| "tag_ordering (KeyPart_Float _) = 3"
| "tag_ordering KeyPart_False = 4"
| "tag_ordering KeyPart_True = 5"

fun cmp :: "KeyPart \<Rightarrow> KeyPart \<Rightarrow> Ordering" where
  "cmp (KeyPart_Bytes b1) (KeyPart_Bytes b2) = cmp_vec cmp_ord b1 b2"
| "cmp (KeyPart_String s1) (KeyPart_String s2) = cmp_vec cmp_ord s1 s2"
| "cmp (KeyPart_Int i1) (KeyPart_Int i2) = cmp_ord i1 i2"
| "cmp (KeyPart_Float f1) (KeyPart_Float f2) =
     total_cmp (canonicalize_f64 f1) (canonicalize_f64 f2)"
| "cmp self other = cmp_ord (tag_ordering self) (tag_ordering other)"

definition cmp_key :: "Key \<Rightarrow> Key \<Rightarrow> Ordering" where
  \<comment> \<open>\<^verbatim>\<open>Key\<close> is a vector of key parts and is ordered as one.\<close>
  "cmp_key k1 k2 = cmp_vec cmp k1 k2"

subsection \<open>Key encoding (codec)\<close>

definition STRING :: u8 where
  "STRING = 0x02"

definition escape_raw_bytes_into :: "u8 list \<Rightarrow> u8 list \<Rightarrow> u8 list" where
  \<comment> \<open>\<^verbatim>\<open>output.length = 0; output.push(...bytes);\<close>: returns the new \<^verbatim>\<open>output\<close>.\<close>
  "escape_raw_bytes_into output bytes = [] @ bytes"

definition bigint_encode_into :: "u8 list \<Rightarrow> int \<Rightarrow> u8 list" where
  \<comment> \<open>\<^verbatim>\<open>encode_into(output, n): void {}\<close>: the body is empty.\<close>
  "bigint_encode_into output n = output"

text \<open>
  The body of the loop in \<^verbatim>\<open>encode_key\<close> is the call \<^verbatim>\<open>match(part, [...])\<close>. The
  ponyfill's \<^verbatim>\<open>match\<close> is \<^verbatim>\<open>() => {}\<close>, and so are \<^verbatim>\<open>KeyPart.String\<close> and
  \<^verbatim>\<open>KeyPart.Int\<close>: the array of arms is built, none of the arrow functions in it is
  called, and \<^verbatim>\<open>output\<close> is not touched. The two arms, which push \<^verbatim>\<open>STRING\<close>, call
  \<^verbatim>\<open>escape_raw_bytes_into\<close> and \<^verbatim>\<open>bigint.encode_into\<close>, never run.
\<close>

definition rs_match :: "u8 list \<Rightarrow> string \<Rightarrow> u8 list" where
  \<comment> \<open>\<^verbatim>\<open>output\<close> after \<^verbatim>\<open>match(part, arms)\<close>.\<close>
  "rs_match output part = output"

text \<open>
  \<^verbatim>\<open>for (const part in key[0])\<close> runs over the enumerable property names of
  \<^verbatim>\<open>key[0]\<close> (none when there is no such element). Which names an element has is up to
  how a key part is represented at run time: \<^verbatim>\<open>names\<close> is a parameter.
\<close>

definition encode_key :: "(Key \<Rightarrow> string list) \<Rightarrow> Key \<Rightarrow> unit + u8 list" where
  \<comment> \<open>\<^verbatim>\<open>std.io.Result\<close>: the function only ever returns \<^verbatim>\<open>Ok(output)\<close>.\<close>
  "encode_key names key = Inr (foldl rs_match [] (names key))"

section \<open>The atomic write engine\<close>

subsection \<open>Requests (interface)\<close>

type_synonym Versionstamp = "u8 list"

datatype Value = Value_V8 "u8 list" | Value_Bytes "u8 list" | Value_U64 u64

datatype MutationKind =
    MutationKind_Set Value
  | MutationKind_Delete
  | MutationKind_Sum Value
  | MutationKind_Min Value
  | MutationKind_Max Value

record KvCheck =
  check_key :: "u8 list"
  check_versionstamp :: "Versionstamp option"

record KvMutation =
  mutation_key :: "u8 list"
  mutation_kind :: MutationKind

record Enqueue =
  payload :: "u8 list"
  deadline_ms :: u64
  keys_if_undelivered :: "u8 list list"
  backoff_schedule :: "32 word list option"

record AtomicWrite =
  checks :: "KvCheck list"
  mutations :: "KvMutation list"
  enqueues :: "Enqueue list"

record CommitResult =
  versionstamp :: Versionstamp

subsection \<open>The SQLite tables\<close>

text \<open>
  Table \<^verbatim>\<open>kv (k, v, v_encoding, version)\<close> with primary key \<^verbatim>\<open>k\<close> is a map from
  the key bytes to the row; the pair \<^verbatim>\<open>(v, v_encoding)\<close> is kept as the \<^verbatim>\<open>Value\<close>
  it encodes. Table \<^verbatim>\<open>data_version\<close> holds the one counter, an SQLite integer, as a
  mathematical integer.
\<close>

type_synonym Table = "u8 list \<rightharpoonup> Value \<times> int"

record Db =
  kv :: Table
  data_version :: int

datatype AnyError = TypeMismatch

text \<open>
  Modelled from the spec: \<^verbatim>\<open>mutate_le64\<close> is called by \<^verbatim>\<open>atomic_write\<close> for Sum, Min
  and Max and its body is not in the source. The spec has the existing numeric value read,
  the operation applied and the result written back under the new version; on an absent key
  the operand becomes the new value (the documentation of \<^verbatim>\<open>MutationKind\<close> says the
  same); a numeric mutation against a non-numeric existing value is a TypeMismatch. The
  operand is a \<^verbatim>\<open>Value\<close> that "supports only" \<^verbatim>\<open>U64\<close>: another operand is a
  TypeMismatch too.
\<close>

definition mutate_le64 ::
  "Table \<Rightarrow> u8 list \<Rightarrow> Value \<Rightarrow> int \<Rightarrow> (u64 \<Rightarrow> u64 \<Rightarrow> u64) \<Rightarrow> AnyError + Table" where
  "mutate_le64 tx key operand version mutate =
     (case operand of
        Value_U64 b \<Rightarrow>
          (case tx key of
             None \<Rightarrow> Inr (tx(key \<mapsto> (Value_U64 b, version)))
           | Some (Value_U64 a, _) \<Rightarrow> Inr (tx(key \<mapsto> (Value_U64 (mutate a b), version)))
           | Some (_, _) \<Rightarrow> Inl TypeMismatch)
      | _ \<Rightarrow> Inl TypeMismatch)"

subsection \<open>\<^verbatim>\<open>atomic_write\<close>\<close>

fun run_checks :: "(int \<Rightarrow> Versionstamp) \<Rightarrow> Table \<Rightarrow> KvCheck list \<Rightarrow> bool" where
  \<comment> \<open>The loop over \<^verbatim>\<open>write.checks\<close>: false where the source returns \<^verbatim>\<open>Ok(None)\<close>.\<close>
  "run_checks version_to_versionstamp tx [] = True"
| "run_checks version_to_versionstamp tx (check # rest) =
     (let real_versionstamp =
            map_option (\<lambda>row. version_to_versionstamp (snd row)) (tx (check_key check))
      in if real_versionstamp \<noteq> check_versionstamp check then False
         else run_checks version_to_versionstamp tx rest)"

fun apply_mutation :: "Table \<Rightarrow> int \<Rightarrow> KvMutation \<Rightarrow> AnyError + Table" where
  "apply_mutation tx version mutation =
     (case mutation_kind mutation of
        MutationKind_Set v \<Rightarrow> Inr (tx(mutation_key mutation \<mapsto> (v, version)))
      | MutationKind_Delete \<Rightarrow> Inr (tx(mutation_key mutation := None))
      | MutationKind_Sum operand \<Rightarrow>
          mutate_le64 tx (mutation_key mutation) operand version (\<lambda>a b. a + b)
      | MutationKind_Min operand \<Rightarrow>
          mutate_le64 tx (mutation_key mutation) operand version (\<lambda>a b. min a b)
      | MutationKind_Max operand \<Rightarrow>
          mutate_le64 tx (mutation_key mutation) operand version (\<lambda>a b. max a b))"

fun run_mutations :: "Table \<Rightarrow> int \<Rightarrow> KvMutation list \<Rightarrow> AnyError + Table" where
  \<comment> \<open>The loop over \<^verbatim>\<open>write.mutations\<close>; \<^verbatim>\<open>?\<close> leaves at the first error.\<close>
  "run_mutations tx version [] = Inr tx"
| "run_mutations tx version (mutation # rest) =
     (case apply_mutation tx version mutation of
        Inl e \<Rightarrow> Inl e
      | Inr tx' \<Rightarrow> run_mutations tx' version rest)"

text \<open>
  \<^verbatim>\<open>atomic_write\<close> returns its result and leaves the database in a state: the one it
  found when the transaction is dropped (a failed check, an error), the new one when the
  transaction commits. \<^verbatim>\<open>version_to_versionstamp\<close> is not in the source and is a
  parameter.
\<close>

definition atomic_write ::
  "(int \<Rightarrow> Versionstamp) \<Rightarrow> Db \<Rightarrow> AtomicWrite \<Rightarrow> (AnyError + CommitResult option) \<times> Db" where
  "atomic_write version_to_versionstamp db write =
     (if \<not> run_checks version_to_versionstamp (kv db) (checks write) then (Inr None, db)
      else
        let version = data_version db + 1 in
        (case run_mutations (kv db) version (mutations write) of
           Inl e \<Rightarrow> (Inl e, db)
         | Inr tx' \<Rightarrow>
             (Inr (Some \<lparr>versionstamp = version_to_versionstamp version\<rparr>),
              \<lparr>kv = tx', data_version = version\<rparr>)))"

section \<open>The polyfill's classes\<close>

subsection \<open>JavaScript values and exceptions\<close>

datatype Exn = TypeError | Error string | OtherExn string

text \<open>
  \<^verbatim>\<open>JsUint8Array\<close> is an instance of \<^verbatim>\<open>Uint8Array\<close> itself and \<^verbatim>\<open>JsKvU64\<close> an
  instance of \<^verbatim>\<open>KvU64\<close>. \<^verbatim>\<open>JsObject\<close> is any other object (a plain object, an array,
  a \<^verbatim>\<open>Buffer\<close>): it carries the name of its constructor, \<^verbatim>\<open>None\<close> when it has no
  constructor, and what its property \<^verbatim>\<open>value\<close> reads as.
\<close>

datatype JsValue =
    JsUndefined
  | JsNull
  | JsBoolean bool
  | JsNumber f64
  | JsBigInt int
  | JsString string
  | JsUint8Array "u8 list"
  | JsKvU64 int
  | JsObject "string option" JsValue

fun truthy :: "JsValue \<Rightarrow> bool" where
  "truthy JsUndefined = False"
| "truthy JsNull = False"
| "truthy (JsBoolean b) = b"
| "truthy (JsNumber n) = (\<not> is_nan n \<and> n \<noteq> 0 \<and> n \<noteq> 0x8000000000000000)"
| "truthy (JsBigInt i) = (i \<noteq> 0)"
| "truthy (JsString s) = (s \<noteq> [])"
| "truthy (JsUint8Array _) = True"
| "truthy (JsKvU64 _) = True"
| "truthy (JsObject _ _) = True"

datatype KvKeyPart =
    KvKeyPart_Uint8Array "u8 list"
  | KvKeyPart_string string
  | KvKeyPart_number f64
  | KvKeyPart_bigint int
  | KvKeyPart_boolean bool

type_synonym KvKey = "KvKeyPart list"

subsection \<open>RawValue and serializeValue\<close>

datatype RawValue = RawValue_v8 "u8 list" | RawValue_bytes JsValue | RawValue_u64 JsValue

fun constructor_name :: "JsValue \<Rightarrow> Exn + string option" where
  \<comment> \<open>\<^verbatim>\<open>value?.constructor.name\<close>: undefined on a nullish value, a TypeError on an
      object without a constructor.\<close>
  "constructor_name JsUndefined = Inr None"
| "constructor_name JsNull = Inr None"
| "constructor_name (JsBoolean _) = Inr (Some ''Boolean'')"
| "constructor_name (JsNumber _) = Inr (Some ''Number'')"
| "constructor_name (JsBigInt _) = Inr (Some ''BigInt'')"
| "constructor_name (JsString _) = Inr (Some ''String'')"
| "constructor_name (JsUint8Array _) = Inr (Some ''Uint8Array'')"
| "constructor_name (JsKvU64 _) = Inr (Some ''KvU64'')"
| "constructor_name (JsObject None _) = Inl TypeError"
| "constructor_name (JsObject (Some n) _) = Inr (Some n)"

fun value_property :: "JsValue \<Rightarrow> JsValue" where
  \<comment> \<open>\<^verbatim>\<open>(value as KvU64).value\<close>; read only where the constructor is named KvU64.\<close>
  "value_property (JsKvU64 n) = JsBigInt n"
| "value_property (JsObject _ p) = p"
| "value_property _ = JsUndefined"

definition serializeValue :: "(JsValue \<Rightarrow> Exn + u8 list) \<Rightarrow> JsValue \<Rightarrow> Exn + RawValue" where
  \<comment> \<open>\<^verbatim>\<open>serialize\<close> is \<^verbatim>\<open>node:v8\<close>'s and is a parameter.\<close>
  "serializeValue serialize v =
     (case constructor_name v of
        Inl e \<Rightarrow> Inl e
      | Inr name \<Rightarrow>
          if name = Some ''Uint8Array'' then Inr (RawValue_bytes v)
          else if name = Some ''KvU64'' then Inr (RawValue_u64 (value_property v))
          else (case serialize v of Inl e \<Rightarrow> Inl e | Inr b \<Rightarrow> Inr (RawValue_v8 b)))"

subsection \<open>kvAtomicWrite and AtomicOperation\<close>

record AtomicCheck =
  atomic_check_key :: KvKey
  atomic_check_versionstamp :: "string option"

type_synonym Mutation = "KvKey \<times> string \<times> RawValue option"

definition kvAtomicWrite ::
  "'db \<Rightarrow> AtomicCheck list option \<Rightarrow> Mutation list option \<Rightarrow> string option" where
  \<comment> \<open>\<^verbatim>\<open>return null;\<close>\<close>
  "kvAtomicWrite db cs ms = None"

text \<open>
  The private fields \<^verbatim>\<open>#checks\<close> and \<^verbatim>\<open>#mutations\<close> are declared without an
  initialiser: \<^verbatim>\<open>None\<close> is \<^verbatim>\<open>undefined\<close>.
\<close>

record 'db AtomicOperation =
  op_db :: 'db
  op_checks :: "AtomicCheck list option"
  op_mutations :: "Mutation list option"

definition AtomicOperation_constructor :: "'db \<Rightarrow> 'db AtomicOperation" where
  \<comment> \<open>\<^verbatim>\<open>this.#db = db;\<close> and nothing else.\<close>
  "AtomicOperation_constructor db = \<lparr>op_db = db, op_checks = None, op_mutations = None\<rparr>"

datatype KvCommit = KvCommitResult string | KvCommitError

definition AtomicOperation_commit :: "'db AtomicOperation \<Rightarrow> KvCommit" where
  "AtomicOperation_commit this =
     (case kvAtomicWrite (op_db this) (op_checks this) (op_mutations this) of
        Some stamp \<Rightarrow> KvCommitResult stamp
      | None \<Rightarrow> KvCommitError)"

text \<open>
  \<^verbatim>\<open>this.#checks.push(...)\<close> reads \<^verbatim>\<open>push\<close> from the field before it evaluates the
  arguments: on \<^verbatim>\<open>undefined\<close> that is a TypeError, and the object is unchanged.
\<close>

definition AtomicOperation_check ::
  "'db AtomicOperation \<Rightarrow> AtomicCheck list \<Rightarrow> Exn + 'db AtomicOperation" where
  "AtomicOperation_check this cs =
     (case op_checks this of
        None \<Rightarrow> Inl TypeError
      | Some xs \<Rightarrow> Inr (this\<lparr>op_checks := Some (xs @ cs)\<rparr>))"

definition push_mutation ::
  "'db AtomicOperation \<Rightarrow> KvKey \<Rightarrow> string \<Rightarrow> (Exn + RawValue option) \<Rightarrow> Exn + 'db AtomicOperation" where
  \<comment> \<open>\<^verbatim>\<open>this.#mutations.push([key, type, value])\<close>, the value computed after the read of
      \<^verbatim>\<open>push\<close>.\<close>
  "push_mutation this key type_name raw =
     (case op_mutations this of
        None \<Rightarrow> Inl TypeError
      | Some ms \<Rightarrow>
          (case raw of
             Inl e \<Rightarrow> Inl e
           | Inr v \<Rightarrow> Inr (this\<lparr>op_mutations := Some (ms @ [(key, type_name, v)])\<rparr>)))"

definition AtomicOperation_delete ::
  "'db AtomicOperation \<Rightarrow> KvKey \<Rightarrow> Exn + 'db AtomicOperation" where
  "AtomicOperation_delete this key = push_mutation this key ''delete'' (Inr None)"

definition AtomicOperation_max ::
  "(JsValue \<Rightarrow> Exn + u8 list) \<Rightarrow> 'db AtomicOperation \<Rightarrow> KvKey \<Rightarrow> int \<Rightarrow> Exn + 'db AtomicOperation" where
  "AtomicOperation_max serialize this key n =
     push_mutation this key ''max'' (map_sum id Some (serializeValue serialize (JsKvU64 n)))"

definition AtomicOperation_min ::
  "(JsValue \<Rightarrow> Exn + u8 list) \<Rightarrow> 'db AtomicOperation \<Rightarrow> KvKey \<Rightarrow> int \<Rightarrow> Exn + 'db AtomicOperation" where
  "AtomicOperation_min serialize this key n =
     push_mutation this key ''min'' (map_sum id Some (serializeValue serialize (JsKvU64 n)))"

definition AtomicOperation_sum ::
  "(JsValue \<Rightarrow> Exn + u8 list) \<Rightarrow> 'db AtomicOperation \<Rightarrow> KvKey \<Rightarrow> int \<Rightarrow> Exn + 'db AtomicOperation" where
  "AtomicOperation_sum serialize this key n =
     push_mutation this key ''sum'' (map_sum id Some (serializeValue serialize (JsKvU64 n)))"

definition AtomicOperation_set ::
  "(JsValue \<Rightarrow> Exn + u8 list) \<Rightarrow> 'db AtomicOperation \<Rightarrow> KvKey \<Rightarrow> JsValue \<Rightarrow> Exn + 'db AtomicOperation" where
  "AtomicOperation_set serialize this key v =
     push_mutation this key ''set'' (map_sum id Some (serializeValue serialize v))"

text \<open>
  An argument of \<^verbatim>\<open>mutate\<close>: \<^verbatim>\<open>m_value = None\<close> when the object has no \<^verbatim>\<open>value\<close>
  property.
\<close>

record KvMutationArg =
  m_key :: KvKey
  m_type :: string
  m_value :: "JsValue option"

definition mutate_switch ::
  "(JsValue \<Rightarrow> Exn + u8 list) \<Rightarrow> KvMutationArg \<Rightarrow> Exn + string \<times> RawValue option" where
  \<comment> \<open>The \<^verbatim>\<open>switch (mutation.type)\<close> of the loop body.\<close>
  "mutate_switch serialize mutation =
     (if m_type mutation = ''delete'' then
        (if (case m_value mutation of None \<Rightarrow> False | Some v \<Rightarrow> truthy v) then Inl TypeError
         else Inr (''delete'', None))
      else if m_type mutation \<in> set [''set'', ''sum'', ''min'', ''max''] then
        (case m_value mutation of
           None \<Rightarrow> Inl TypeError
         | Some v \<Rightarrow>
             (case serializeValue serialize v of
                Inl e \<Rightarrow> Inl e
              | Inr raw \<Rightarrow> Inr (m_type mutation, Some raw)))
      else Inl TypeError)"

fun AtomicOperation_mutate ::
  "(JsValue \<Rightarrow> Exn + u8 list) \<Rightarrow> 'db AtomicOperation \<Rightarrow> KvMutationArg list
     \<Rightarrow> Exn option \<times> 'db AtomicOperation" where
  \<comment> \<open>The exception thrown, if any, and the object as the call leaves it.\<close>
  "AtomicOperation_mutate serialize this [] = (None, this)"
| "AtomicOperation_mutate serialize this (mutation # rest) =
     (case mutate_switch serialize mutation of
        Inl e \<Rightarrow> (Some e, this)
      | Inr (type_name, v) \<Rightarrow>
          (case push_mutation this (m_key mutation) type_name (Inr v) of
             Inl e \<Rightarrow> (Some e, this)
           | Inr this' \<Rightarrow> AtomicOperation_mutate serialize this' rest))"

subsection \<open>Kv\<close>

text \<open>
  The \<^verbatim>\<open>sqlite\<close> database handle, as far as \<^verbatim>\<open>Kv\<close> reads it: the point query
  \<^verbatim>\<open>SELECT value, versionstamp FROM kv WHERE key = ?\<close> resolves to the row of the key,
  or to \<^verbatim>\<open>undefined\<close> when there is none.
\<close>

record Row =
  row_value :: JsValue
  row_versionstamp :: JsValue

type_synonym Database = "KvKey \<rightharpoonup> Row"

record KvEntryMaybe =
  maybe_key :: KvKey
  maybe_value :: JsValue
  maybe_versionstamp :: JsValue

definition Kv_atomic :: "Database \<Rightarrow> Database AtomicOperation" where
  "Kv_atomic db = AtomicOperation_constructor db"

definition Kv_get :: "(JsValue \<Rightarrow> Exn + JsValue) \<Rightarrow> Database \<Rightarrow> KvKey \<Rightarrow> Exn + KvEntryMaybe" where
  \<comment> \<open>\<^verbatim>\<open>JSON.parse\<close> is a parameter. Destructuring \<^verbatim>\<open>undefined\<close> is a TypeError.\<close>
  "Kv_get JSON_parse db key =
     (case db key of
        None \<Rightarrow> Inl TypeError
      | Some row \<Rightarrow>
          (if truthy (row_value row) then
             (case JSON_parse (row_value row) of
                Inl e \<Rightarrow> Inl e
              | Inr v \<Rightarrow>
                  Inr \<lparr>maybe_key = key, maybe_value = v,
                       maybe_versionstamp = row_versionstamp row\<rparr>)
           else
             Inr \<lparr>maybe_key = key, maybe_value = JsNull,
                  maybe_versionstamp = row_versionstamp row\<rparr>))"

fun rejected :: "(Exn + 'a) list \<Rightarrow> Exn list" where
  "rejected [] = []"
| "rejected (Inl e # rs) = e # rejected rs"
| "rejected (Inr _ # rs) = rejected rs"

fun fulfilled :: "(Exn + 'a) list \<Rightarrow> 'a list" where
  "fulfilled [] = []"
| "fulfilled (Inl _ # rs) = fulfilled rs"
| "fulfilled (Inr x # rs) = x # fulfilled rs"

definition Kv_getMany ::
  "(JsValue \<Rightarrow> Exn + JsValue) \<Rightarrow> (Exn list \<Rightarrow> Exn) \<Rightarrow> Database \<Rightarrow> KvKey list
     \<Rightarrow> Exn + KvEntryMaybe list" where
  \<comment> \<open>\<^verbatim>\<open>Promise.all\<close> over the \<^verbatim>\<open>get\<close> of every key: the entries in the order of the
      keys when every \<^verbatim>\<open>get\<close> fulfils, else the rejection that settles first. Which of
      the rejections that is depends on the timing of the queries: \<^verbatim>\<open>settles_first\<close> is a
      parameter.\<close>
  "Kv_getMany JSON_parse settles_first db keys =
     (let results = map (Kv_get JSON_parse db) keys
      in if rejected results = [] then Inr (fulfilled results)
         else Inl (settles_first (rejected results)))"

definition Kv_set ::
  "(JsValue \<Rightarrow> Exn + u8 list) \<Rightarrow> Database \<Rightarrow> KvKey \<Rightarrow> JsValue \<Rightarrow> Exn + KvKey \<times> KvCommit" where
  "Kv_set serialize db key v =
     (case AtomicOperation_set serialize (Kv_atomic db) key v of
        Inl e \<Rightarrow> Inl e
      | Inr this \<Rightarrow> Inr (key, AtomicOperation_commit this))"

subsection \<open>KvListIterator\<close>

record KvEntry =
  entry_key :: KvKey
  entry_value :: JsValue
  entry_versionstamp :: string

record KvListSelector =
  sel_prefix :: "KvKey option"
  sel_start :: "KvKey option"
  sel_end :: "KvKey option"

datatype KvConsistencyLevel = strong | eventual

text \<open>
  \<^verbatim>\<open>pullBatch\<close> is handed to the constructor and reads the storage. It is a function of
  the storage state, returns the batch or throws, and leaves a storage state. The
  \<^verbatim>\<open>World\<close> of an iterator is that storage together with the number of \<^verbatim>\<open>pullBatch\<close>
  calls made so far.
\<close>

type_synonym 'st PullBatch =
  "'st \<Rightarrow> KvListSelector \<Rightarrow> string option \<Rightarrow> bool \<Rightarrow> KvConsistencyLevel
     \<Rightarrow> (Exn + KvEntry list) \<times> 'st"

record 'st World =
  storage :: 'st
  scans :: nat

text \<open>
  The closure in \<^verbatim>\<open>#cursorGen\<close> is either a constant (the cursor of the options, or the
  empty string once the iterator is exhausted) or the cursor encoded from the key of the
  entry last yielded.
\<close>

datatype CursorGen = ConstCursor string | EntryCursor KvKey

datatype IteratorResult = IterDone | IterValue KvEntry

record 'st KvListIterator =
  it_selector :: KvListSelector
  it_entries :: "KvEntry list option"
  it_cursorGen :: "CursorGen option"
  it_done :: bool
  it_lastBatch :: bool
  it_pullBatch :: "'st PullBatch"
  it_limit :: "int option"
  it_count :: nat
  it_reverse :: bool
  it_batchSize :: int
  it_consistency :: KvConsistencyLevel

definition constructor_selector :: "KvListSelector \<Rightarrow> Exn + KvListSelector" where
  \<comment> \<open>The selector the constructor stores; an array is truthy, so a key counts when it is
      defined.\<close>
  "constructor_selector selector =
     (case sel_prefix selector of
        Some prefix \<Rightarrow>
          (if sel_start selector \<noteq> None \<and> sel_end selector \<noteq> None then Inl TypeError
           else if sel_start selector \<noteq> None then
             Inr \<lparr>sel_prefix = Some prefix, sel_start = sel_start selector, sel_end = None\<rparr>
           else if sel_end selector \<noteq> None then
             Inr \<lparr>sel_prefix = Some prefix, sel_start = None, sel_end = sel_end selector\<rparr>
           else Inr \<lparr>sel_prefix = Some prefix, sel_start = None, sel_end = None\<rparr>)
      | None \<Rightarrow>
          (if sel_start selector \<noteq> None \<and> sel_end selector \<noteq> None then
             Inr \<lparr>sel_prefix = None, sel_start = sel_start selector, sel_end = sel_end selector\<rparr>
           else Inl TypeError))"

definition KvListIterator_constructor ::
  "int option \<Rightarrow> KvListSelector \<Rightarrow> string option \<Rightarrow> bool \<Rightarrow> KvConsistencyLevel \<Rightarrow> int
     \<Rightarrow> 'st PullBatch \<Rightarrow> Exn + 'st KvListIterator" where
  "KvListIterator_constructor limit selector cursor_opt reverse consistency batchSize pullBatch =
     (case constructor_selector selector of
        Inl e \<Rightarrow> Inl e
      | Inr sel \<Rightarrow>
          Inr \<lparr>it_selector = sel, it_entries = None,
               it_cursorGen =
                 (case cursor_opt of
                    None \<Rightarrow> None
                  | Some c \<Rightarrow> (if c \<noteq> [] then Some (ConstCursor c) else None)),
               it_done = False, it_lastBatch = False, it_pullBatch = pullBatch,
               it_limit = limit, it_count = 0, it_reverse = reverse,
               it_batchSize = batchSize, it_consistency = consistency\<rparr>)"

text \<open>
  \<^verbatim>\<open>encodeCursor\<close> is called by the closure and is not defined in the source: it is a
  parameter, a function of the three keys of the selector and of the boundary key that
  returns the cursor or throws.
\<close>

type_synonym EncodeCursor =
  "KvKey option \<times> KvKey option \<times> KvKey option \<Rightarrow> KvKey \<Rightarrow> Exn + string"

definition call_cursorGen :: "EncodeCursor \<Rightarrow> KvListSelector \<Rightarrow> CursorGen \<Rightarrow> Exn + string" where
  "call_cursorGen encodeCursor selector gen =
     (case gen of
        ConstCursor c \<Rightarrow> Inr c
      | EntryCursor k \<Rightarrow>
          encodeCursor (sel_prefix selector, sel_start selector, sel_end selector) k)"

definition KvListIterator_cursor :: "EncodeCursor \<Rightarrow> 'st KvListIterator \<Rightarrow> Exn + string" where
  "KvListIterator_cursor encodeCursor this =
     (case it_cursorGen this of
        None \<Rightarrow> Inl (Error ''Cannot get cursor before first iteration'')
      | Some gen \<Rightarrow> call_cursorGen encodeCursor (it_selector this) gen)"

definition fill_buffer ::
  "EncodeCursor \<Rightarrow> 'st KvListIterator \<Rightarrow> 'st World \<Rightarrow> (Exn + 'st KvListIterator) \<times> 'st World" where
  \<comment> \<open>"Attempt to fill the buffer": the first half of \<^verbatim>\<open>next\<close>.\<close>
  "fill_buffer encodeCursor this w =
     (if (case it_entries this of None \<Rightarrow> True | Some es \<Rightarrow> es = []) \<and> \<not> it_lastBatch this then
        (case (case it_cursorGen this of
                 None \<Rightarrow> Inr None
               | Some gen \<Rightarrow>
                   map_sum id Some (call_cursorGen encodeCursor (it_selector this) gen)) of
           Inl e \<Rightarrow> (Inl e, w)
         | Inr c \<Rightarrow>
             (case it_pullBatch this (storage w) (it_selector this) c (it_reverse this)
                     (it_consistency this) of
                (Inl e, st') \<Rightarrow> (Inl e, \<lparr>storage = st', scans = Suc (scans w)\<rparr>)
              | (Inr batch, st') \<Rightarrow>
                  (Inr (this\<lparr>it_entries := Some (rev batch),
                             it_lastBatch :=
                               (if int (length batch) < it_batchSize this then True
                                else it_lastBatch this)\<rparr>),
                   \<lparr>storage = st', scans = Suc (scans w)\<rparr>)))
      else (Inr this, w))"

definition pop_entry ::
  "'st KvListIterator \<Rightarrow> IteratorResult \<times> 'st KvListIterator" where
  \<comment> \<open>The second half of \<^verbatim>\<open>next\<close>, from \<^verbatim>\<open>this.#entries?.pop()\<close> on.\<close>
  "pop_entry this =
     (case (case it_entries this of
              None \<Rightarrow> None
            | Some es \<Rightarrow> (if es = [] then None else Some (last es, butlast es))) of
        None \<Rightarrow> (IterDone, this\<lparr>it_done := True, it_cursorGen := Some (ConstCursor [])\<rparr>)
      | Some (entry, es') \<Rightarrow>
          (IterValue entry,
           this\<lparr>it_entries := Some es', it_cursorGen := Some (EntryCursor (entry_key entry)),
                it_count := Suc (it_count this)\<rparr>))"

definition KvListIterator_next ::
  "EncodeCursor \<Rightarrow> 'st KvListIterator \<times> 'st World
     \<Rightarrow> (Exn + IteratorResult) \<times> 'st KvListIterator \<times> 'st World" where
  "KvListIterator_next encodeCursor s =
     (case s of (this, w) \<Rightarrow>
        if it_done this \<or> (case it_limit this of None \<Rightarrow> False | Some l \<Rightarrow> l \<le> int (it_count this))
        then (Inr IterDone, this, w)
        else
          (case fill_buffer encodeCursor this w of
             (Inl e, w') \<Rightarrow> (Inl e, this, w')
           | (Inr this', w') \<Rightarrow>
               (case pop_entry this' of (r, this'') \<Rightarrow> (Inr r, this'', w'))))"

section \<open>Canonical NaN\<close>

lemma is_nan_CANONICAL_NAN_NEG: "is_nan CANONICAL_NAN_NEG"
  by (simp add: is_nan_def CANONICAL_NAN_NEG_def)

lemma is_sign_negative_nan: "is_nan n \<Longrightarrow> \<not> is_sign_negative n"
  by (simp add: is_sign_negative_def lt_zero_def)

lemma canonicalize_f64_nan: "is_nan n \<Longrightarrow> canonicalize_f64 n = CANONICAL_NAN_POS"
  by (simp add: canonicalize_f64_def is_sign_negative_nan from_bits_def)

lemma canonicalize_f64_not_nan: "\<not> is_nan n \<Longrightarrow> canonicalize_f64 n = n"
  by (simp add: canonicalize_f64_def)

text \<open>
  C5. \<^verbatim>\<open>canonicalize_f64\<close> is to send a NaN with the sign bit set to the canonical
  negative NaN. At the bit pattern \<^verbatim>\<open>0xfff8000000000000\<close> (a NaN, sign bit set) it
  returns the canonical positive NaN \<^verbatim>\<open>0x7ff8000000000000\<close>: \<^verbatim>\<open>is_sign_negative\<close>
  compares with zero, which is false on every NaN.
\<close>

theorem canonicalize_f64_negative_nan:
  "is_nan 0xfff8000000000000 \<and> bit (0xfff8000000000000 :: f64) 63 \<and>
   canonicalize_f64 0xfff8000000000000 = 0x7ff8000000000000 \<and>
   canonicalize_f64 0xfff8000000000000 \<noteq> CANONICAL_NAN_NEG"
  by (simp add: canonicalize_f64_def is_nan_def is_sign_negative_def lt_zero_def
      from_bits_def CANONICAL_NAN_POS_def CANONICAL_NAN_NEG_def)

section \<open>Key encoding\<close>

lemma foldl_rs_match: "foldl rs_match out parts = out"
  by (induction parts arbitrary: out) (simp_all add: rs_match_def)

lemma encode_key_constant: "encode_key names key = Inr []"
  by (simp add: encode_key_def foldl_rs_match)

text \<open>
  \<^verbatim>\<open>escape_raw_bytes_into\<close>, were it called, would drop what the output holds and copy a
  zero byte as it is.
\<close>

lemma escape_raw_bytes_into_no_escape:
  "escape_raw_bytes_into [STRING] [0x61, 0x00] = [0x61, 0x00]"
  by (simp add: escape_raw_bytes_into_def)

text \<open>
  C2. Key encoding is to preserve the order: the encoding of \<open>k1\<close> is bytewise below
  the encoding of \<open>k2\<close> exactly when \<open>k1\<close> is below \<open>k2\<close> in the order of key parts.
  The key \<^verbatim>\<open>[False]\<close> is below the key \<^verbatim>\<open>[True]\<close>, and \<^verbatim>\<open>encode_key\<close> gives both
  the empty byte string: no arm of its \<^verbatim>\<open>match\<close> runs, and there is none for a boolean
  part.
\<close>

theorem encode_key_loses_order:
  "cmp_key [KeyPart_False] [KeyPart_True] = Less \<and>
   encode_key names [KeyPart_False] = Inr [] \<and> encode_key names [KeyPart_True] = Inr [] \<and>
   cmp_vec cmp_ord ([] :: u8 list) [] = Equal"
  by (simp add: cmp_key_def cmp_ord_def encode_key_def foldl_rs_match)

text \<open>
  C3. The codec is to round-trip: decoding the encoding of a key gives the key back. The
  keys \<^verbatim>\<open>[False]\<close> and \<^verbatim>\<open>[True]\<close> have the same encoding, so no decoder, whatever it
  does, returns every key from its encoding. (The source has no decoder.)
\<close>

theorem encode_key_no_round_trip:
  "encode_key names [KeyPart_False] = Inr [] \<and> encode_key names [KeyPart_True] = Inr [] \<and>
   (\<nexists>decode. \<forall>k. decode (encode_key names k) = k)"
proof -
  have a: "encode_key names [KeyPart_False] = Inr []"
    and b: "encode_key names [KeyPart_True] = Inr []"
    by (simp_all add: encode_key_def foldl_rs_match)
  have "\<not> (\<forall>k. decode (encode_key names k) = k)" for decode :: "unit + u8 list \<Rightarrow> Key"
  proof
    assume h: "\<forall>k. decode (encode_key names k) = k"
    from h have "decode (encode_key names [KeyPart_False]) = [KeyPart_False]" by blast
    moreover from h have "decode (encode_key names [KeyPart_True]) = [KeyPart_True]" by blast
    ultimately show False using a b by simp
  qed
  with a b show ?thesis by blast
qed

section \<open>Atomic writes\<close>

lemma run_checks_iff:
  "run_checks vts tx cs =
     (\<forall>c \<in> set cs. map_option (\<lambda>row. vts (snd row)) (tx (check_key c)) = check_versionstamp c)"
  by (induction cs) (auto simp: Let_def)

text \<open>
  C4. When a check of a write expects a versionstamp other than the one the key has (none,
  for an absent key), \<^verbatim>\<open>atomic_write\<close> returns \<^verbatim>\<open>Ok(None)\<close>, a value and not an error,
  and the database is as it was: no mutation is applied, the counter is not advanced. The
  polyfill's \<^verbatim>\<open>commit\<close> turns the null of \<^verbatim>\<open>kvAtomicWrite\<close> into the value
  \<^verbatim>\<open>{ ok: false }\<close> and has no path that throws.
\<close>

theorem failed_check_aborts:
  assumes "c \<in> set (checks write)"
    and "map_option (\<lambda>row. vts (snd row)) (kv db (check_key c)) \<noteq> check_versionstamp c"
  shows "atomic_write vts db write = (Inr None, db) \<and>
         AtomicOperation_commit this = KvCommitError"
proof -
  from assms have "\<not> run_checks vts (kv db) (checks write)"
    by (auto simp: run_checks_iff)
  then show ?thesis
    by (simp add: atomic_write_def AtomicOperation_commit_def kvAtomicWrite_def)
qed

theorem failed_check_aborts_witness:
  "atomic_write (\<lambda>v. [word_of_int v])
     \<lparr>kv = Map.empty([0x61] \<mapsto> (Value_U64 1, 1)), data_version = 1\<rparr>
     \<lparr>checks = [\<lparr>check_key = [0x61], check_versionstamp = None\<rparr>],
      mutations = [\<lparr>mutation_key = [0x61], mutation_kind = MutationKind_Set (Value_U64 2)\<rparr>],
      enqueues = []\<rparr>
   = (Inr None, \<lparr>kv = Map.empty([0x61] \<mapsto> (Value_U64 1, 1)), data_version = 1\<rparr>) \<and>
   AtomicOperation_commit (AtomicOperation_constructor ()) = KvCommitError"
  using failed_check_aborts [of "\<lparr>check_key = [0x61], check_versionstamp = None\<rparr>"
      "\<lparr>checks = [\<lparr>check_key = [0x61], check_versionstamp = None\<rparr>],
      mutations = [\<lparr>mutation_key = [0x61], mutation_kind = MutationKind_Set (Value_U64 2)\<rparr>],
      enqueues = []\<rparr>" "\<lambda>v. [word_of_int v]"
      "\<lparr>kv = Map.empty([0x61] \<mapsto> (Value_U64 1, 1)), data_version = 1\<rparr>"
      "AtomicOperation_constructor ()"]
  by simp

lemma AtomicOperation_commit_stub: "AtomicOperation_commit this = KvCommitError"
  by (simp add: AtomicOperation_commit_def kvAtomicWrite_def)

text \<open>
  C1. A write whose checks all pass is to be committed: its mutations applied, the counter
  advanced once, and \<^verbatim>\<open>commit\<close> is to return \<^verbatim>\<open>{ ok: true, versionstamp }\<close>, as its own
  documentation says. The polyfill's \<^verbatim>\<open>kvAtomicWrite\<close> is \<^verbatim>\<open>return null\<close>: for the
  operation \<^verbatim>\<open>Kv.atomic()\<close> returns, which has no check to fail, \<^verbatim>\<open>commit\<close> returns
  \<^verbatim>\<open>{ ok: false }\<close>; called with an empty list of checks and one Set mutation,
  \<^verbatim>\<open>kvAtomicWrite\<close> returns null, and so does \<^verbatim>\<open>commit\<close> report \<^verbatim>\<open>{ ok: false }\<close> on
  an operation that holds them.
\<close>

theorem commit_of_passing_write:
  "AtomicOperation_commit (Kv_atomic Map.empty) = KvCommitError \<and>
   kvAtomicWrite (Map.empty :: Database) (Some [])
     (Some [([KvKeyPart_string ''a''], ''set'', Some (RawValue_u64 (JsBigInt 1)))]) = None \<and>
   AtomicOperation_commit
     \<lparr>op_db = (Map.empty :: Database), op_checks = Some [],
      op_mutations =
        Some [([KvKeyPart_string ''a''], ''set'', Some (RawValue_u64 (JsBigInt 1)))]\<rparr>
     = KvCommitError"
  by (simp add: AtomicOperation_commit_def kvAtomicWrite_def)

subsection \<open>\<^verbatim>\<open>atomic_write\<close>, the routine the polyfill is to mirror\<close>

lemma apply_mutation_other:
  "apply_mutation tx ver m = Inr tx' \<Longrightarrow> k \<noteq> mutation_key m \<Longrightarrow> tx' k = tx k"
  by (auto simp: mutate_le64_def split: MutationKind.splits Value.splits option.splits)

lemma apply_mutation_key:
  "apply_mutation tx ver m = Inr tx' \<Longrightarrow> tx' (mutation_key m) = Some (v, ver') \<Longrightarrow> ver' = ver"
  by (auto simp: mutate_le64_def split: MutationKind.splits Value.splits option.splits)

lemma apply_mutation_Inl:
  "apply_mutation tx ver m = Inl e \<Longrightarrow>
   \<exists>operand. mutation_kind m \<in>
     {MutationKind_Sum operand, MutationKind_Min operand, MutationKind_Max operand}"
  by (auto split: MutationKind.splits)

lemma run_mutations_untouched:
  "run_mutations tx ver ms = Inr tx' \<Longrightarrow> k \<notin> mutation_key ` set ms \<Longrightarrow> tx' k = tx k"
proof (induction ms arbitrary: tx)
  case Nil
  then show ?case by simp
next
  case (Cons m ms)
  from Cons.prems(1) obtain tx1 where
    a: "apply_mutation tx ver m = Inr tx1" and r: "run_mutations tx1 ver ms = Inr tx'"
    by (auto split: sum.splits)
  from Cons.prems(2) have "k \<noteq> mutation_key m" "k \<notin> mutation_key ` set ms" by auto
  with Cons.IH [OF r] apply_mutation_other [OF a] show ?case by simp
qed

lemma run_mutations_version:
  "run_mutations tx ver ms = Inr tx' \<Longrightarrow> k \<in> mutation_key ` set ms \<Longrightarrow>
   tx' k = Some (v, ver') \<Longrightarrow> ver' = ver"
proof (induction ms arbitrary: tx)
  case Nil
  then show ?case by simp
next
  case (Cons m ms)
  from Cons.prems(1) obtain tx1 where
    a: "apply_mutation tx ver m = Inr tx1" and r: "run_mutations tx1 ver ms = Inr tx'"
    by (auto split: sum.splits)
  show ?case
  proof (cases "k \<in> mutation_key ` set ms")
    case True
    from Cons.IH [OF r True Cons.prems(3)] show ?thesis .
  next
    case False
    with Cons.prems(2) have k: "k = mutation_key m" by auto
    from run_mutations_untouched [OF r False] Cons.prems(3) have "tx1 k = Some (v, ver')"
      by simp
    with apply_mutation_key [OF a] k show ?thesis by simp
  qed
qed

lemma run_mutations_Inl:
  "run_mutations tx ver ms = Inl e \<Longrightarrow>
   \<exists>m \<in> set ms. \<exists>operand. mutation_kind m \<in>
     {MutationKind_Sum operand, MutationKind_Min operand, MutationKind_Max operand}"
proof (induction ms arbitrary: tx)
  case Nil
  then show ?case by simp
next
  case (Cons m ms)
  show ?case
  proof (cases "apply_mutation tx ver m")
    case (Inl e')
    from apply_mutation_Inl [OF this] show ?thesis by auto
  next
    case (Inr tx1)
    with Cons.prems have "run_mutations tx1 ver ms = Inl e" by simp
    from Cons.IH [OF this] show ?thesis by auto
  qed
qed

lemma run_mutations_append:
  "run_mutations tx ver (xs @ ys) =
     (case run_mutations tx ver xs of Inl e \<Rightarrow> Inl e | Inr t \<Rightarrow> run_mutations t ver ys)"
  by (induction xs arbitrary: tx) (auto split: sum.splits)

lemma run_mutations_last_write:
  assumes "run_mutations tx ver (ms1 @ m # ms2) = Inr tx'"
    and "mutation_key m \<notin> mutation_key ` set ms2"
  shows "(\<forall>v. mutation_kind m = MutationKind_Set v \<longrightarrow> tx' (mutation_key m) = Some (v, ver)) \<and>
         (mutation_kind m = MutationKind_Delete \<longrightarrow> tx' (mutation_key m) = None)"
proof -
  from assms(1) obtain t1 where t1: "run_mutations tx ver ms1 = Inr t1"
    and rest: "run_mutations t1 ver (m # ms2) = Inr tx'"
    by (auto simp: run_mutations_append split: sum.splits)
  from rest obtain t2 where a: "apply_mutation t1 ver m = Inr t2"
    and r: "run_mutations t2 ver ms2 = Inr tx'"
    by (auto split: sum.splits)
  from run_mutations_untouched [OF r assms(2)] have "tx' (mutation_key m) = t2 (mutation_key m)" .
  with a show ?thesis by (auto split: MutationKind.splits)
qed

text \<open>
  A Sum on a key that holds a byte value passes its check and is refused:
  \<^verbatim>\<open>atomic_write\<close> returns the error of \<^verbatim>\<open>mutate_le64\<close> and the database is as it was.
\<close>

lemma atomic_write_type_mismatch:
  "run_checks (\<lambda>v. [word_of_int v]) (Map.empty([0x61] \<mapsto> (Value_Bytes [0x01], 1)))
     [\<lparr>check_key = [0x61], check_versionstamp = Some [0x01]\<rparr>] \<and>
   atomic_write (\<lambda>v. [word_of_int v])
     \<lparr>kv = Map.empty([0x61] \<mapsto> (Value_Bytes [0x01], 1)), data_version = 1\<rparr>
     \<lparr>checks = [\<lparr>check_key = [0x61], check_versionstamp = Some [0x01]\<rparr>],
      mutations = [\<lparr>mutation_key = [0x61],
                     mutation_kind = MutationKind_Sum (Value_U64 1)\<rparr>],
      enqueues = []\<rparr>
   = (Inl TypeMismatch,
      \<lparr>kv = Map.empty([0x61] \<mapsto> (Value_Bytes [0x01], 1)), data_version = 1\<rparr>)"
  by (simp add: atomic_write_def mutate_le64_def)

text \<open>
  When all checks of a write pass, \<^verbatim>\<open>atomic_write\<close> either fails with the TypeMismatch of
  one of its Sum, Min or Max mutations, leaving the database as it was, or it commits: every
  mutation has been applied, in order; the counter \<^verbatim>\<open>data_version\<close> is one more than
  before, whatever the number of mutations; the result is \<^verbatim>\<open>CommitResult\<close> with the
  versionstamp of the new counter value; every row under a key of the write carries the new
  version; rows under other keys are as before; and a key whose last mutation is a Set holds
  that value, one whose last mutation is a Delete has no row.
\<close>

lemma atomic_write_commit:
  assumes "run_checks vts (kv db) (checks w)"
  shows "(atomic_write vts db w = (Inl TypeMismatch, db) \<and>
          (\<exists>m \<in> set (mutations w). \<exists>operand. mutation_kind m \<in>
             {MutationKind_Sum operand, MutationKind_Min operand, MutationKind_Max operand})) \<or>
         (\<exists>tx'. run_mutations (kv db) (data_version db + 1) (mutations w) = Inr tx' \<and>
            atomic_write vts db w =
              (Inr (Some \<lparr>versionstamp = vts (data_version db + 1)\<rparr>),
               \<lparr>kv = tx', data_version = data_version db + 1\<rparr>) \<and>
            (\<forall>k v ver. k \<in> mutation_key ` set (mutations w) \<and> tx' k = Some (v, ver)
               \<longrightarrow> ver = data_version db + 1) \<and>
            (\<forall>k. k \<notin> mutation_key ` set (mutations w) \<longrightarrow> tx' k = kv db k) \<and>
            (\<forall>ms1 m ms2. mutations w = ms1 @ m # ms2 \<and>
                mutation_key m \<notin> mutation_key ` set ms2 \<longrightarrow>
               (\<forall>v. mutation_kind m = MutationKind_Set v \<longrightarrow>
                  tx' (mutation_key m) = Some (v, data_version db + 1)) \<and>
               (mutation_kind m = MutationKind_Delete \<longrightarrow> tx' (mutation_key m) = None)))"
proof (cases "run_mutations (kv db) (data_version db + 1) (mutations w)")
  case (Inl e)
  have "e = TypeMismatch" by (cases e)
  with Inl assms have "atomic_write vts db w = (Inl TypeMismatch, db)"
    by (simp add: atomic_write_def Let_def)
  with run_mutations_Inl [OF Inl] show ?thesis by blast
next
  case (Inr tx')
  with assms have "atomic_write vts db w =
      (Inr (Some \<lparr>versionstamp = vts (data_version db + 1)\<rparr>),
       \<lparr>kv = tx', data_version = data_version db + 1\<rparr>)"
    by (simp add: atomic_write_def Let_def)
  moreover have "\<forall>k v ver. k \<in> mutation_key ` set (mutations w) \<and> tx' k = Some (v, ver)
               \<longrightarrow> ver = data_version db + 1"
    using run_mutations_version [OF Inr] by blast
  moreover have "\<forall>k. k \<notin> mutation_key ` set (mutations w) \<longrightarrow> tx' k = kv db k"
    using run_mutations_untouched [OF Inr] by blast
  moreover have "\<forall>ms1 m ms2. mutations w = ms1 @ m # ms2 \<and>
                mutation_key m \<notin> mutation_key ` set ms2 \<longrightarrow>
               (\<forall>v. mutation_kind m = MutationKind_Set v \<longrightarrow>
                  tx' (mutation_key m) = Some (v, data_version db + 1)) \<and>
               (mutation_kind m = MutationKind_Delete \<longrightarrow> tx' (mutation_key m) = None)"
  proof (intro allI impI)
    fix ms1 m ms2
    assume h: "mutations w = ms1 @ m # ms2 \<and> mutation_key m \<notin> mutation_key ` set ms2"
    with Inr have "run_mutations (kv db) (data_version db + 1) (ms1 @ m # ms2) = Inr tx'"
      by simp
    from run_mutations_last_write [OF this] h
    show "(\<forall>v. mutation_kind m = MutationKind_Set v \<longrightarrow>
                  tx' (mutation_key m) = Some (v, data_version db + 1)) \<and>
               (mutation_kind m = MutationKind_Delete \<longrightarrow> tx' (mutation_key m) = None)"
      by simp
  qed
  ultimately show ?thesis using Inr by blast
qed

lemma atomic_write_commit_example:
  "run_checks (\<lambda>v. [word_of_int v]) (Map.empty([0x61] \<mapsto> (Value_Bytes [0x01], 1)))
     [\<lparr>check_key = [0x61], check_versionstamp = Some [0x01]\<rparr>,
      \<lparr>check_key = [0x62], check_versionstamp = None\<rparr>] \<and>
   fst (atomic_write (\<lambda>v. [word_of_int v])
     \<lparr>kv = Map.empty([0x61] \<mapsto> (Value_Bytes [0x01], 1)), data_version = 1\<rparr>
     \<lparr>checks = [\<lparr>check_key = [0x61], check_versionstamp = Some [0x01]\<rparr>,
                \<lparr>check_key = [0x62], check_versionstamp = None\<rparr>],
      mutations = [\<lparr>mutation_key = [0x62], mutation_kind = MutationKind_Set (Value_U64 7)\<rparr>,
                   \<lparr>mutation_key = [0x61], mutation_kind = MutationKind_Delete\<rparr>,
                   \<lparr>mutation_key = [0x63], mutation_kind = MutationKind_Set (Value_V8 [])\<rparr>],
      enqueues = []\<rparr>) = Inr (Some \<lparr>versionstamp = [0x02]\<rparr>)"
proof -
  let ?vts = "\<lambda>v :: int. [word_of_int v :: u8]"
  let ?db = "\<lparr>kv = Map.empty([0x61] \<mapsto> (Value_Bytes [0x01], 1)), data_version = 1\<rparr>"
  let ?w = "\<lparr>checks = [\<lparr>check_key = [0x61], check_versionstamp = Some [0x01]\<rparr>,
                \<lparr>check_key = [0x62], check_versionstamp = None\<rparr>],
      mutations = [\<lparr>mutation_key = [0x62], mutation_kind = MutationKind_Set (Value_U64 7)\<rparr>,
                   \<lparr>mutation_key = [0x61], mutation_kind = MutationKind_Delete\<rparr>,
                   \<lparr>mutation_key = [0x63], mutation_kind = MutationKind_Set (Value_V8 [])\<rparr>],
      enqueues = []\<rparr>"
  have c: "run_checks ?vts (kv ?db) (checks ?w)" by simp
  from atomic_write_commit [OF c] have
    "fst (atomic_write ?vts ?db ?w) = Inr (Some \<lparr>versionstamp = ?vts (data_version ?db + 1)\<rparr>)"
    by auto
  with c show ?thesis by simp
qed

lemma Min_Max_apply:
  assumes "tx k = Some (Value_U64 a, ver0)"
  shows "apply_mutation tx ver
           \<lparr>mutation_key = k, mutation_kind = MutationKind_Min (Value_U64 n)\<rparr>
         = Inr (tx(k \<mapsto> (Value_U64 (if a \<le> n then a else n), ver)))"
    and "apply_mutation tx ver
           \<lparr>mutation_key = k, mutation_kind = MutationKind_Max (Value_U64 n)\<rparr>
         = Inr (tx(k \<mapsto> (Value_U64 (if a \<le> n then n else a), ver)))"
  using assms by (simp_all add: mutate_le64_def min_def max_def)

text \<open>
  C6. Sum is unsigned 64-bit addition with wrap-around. On an absent key the operand is
  stored; on a key that holds a number the sum modulo \<open>2 ^ 64\<close> is stored. From an absent
  key, a committed Sum of 18446744073709551615 followed by a committed Sum of 1 leaves 0.
\<close>

theorem Sum_wraps:
  "(tx k = None \<longrightarrow>
      apply_mutation tx ver \<lparr>mutation_key = k, mutation_kind = MutationKind_Sum (Value_U64 n)\<rparr>
        = Inr (tx(k \<mapsto> (Value_U64 n, ver)))) \<and>
   (tx k = Some (Value_U64 a, ver0) \<longrightarrow>
      apply_mutation tx ver \<lparr>mutation_key = k, mutation_kind = MutationKind_Sum (Value_U64 n)\<rparr>
        = Inr (tx(k \<mapsto> (Value_U64 (a + n), ver))) \<and>
      unat (a + n) = (unat a + unat n) mod 2 ^ 64) \<and>
   (kv db k = None \<longrightarrow>
      (case atomic_write vts db
              \<lparr>checks = [],
               mutations = [\<lparr>mutation_key = k,
                 mutation_kind = MutationKind_Sum (Value_U64 18446744073709551615)\<rparr>],
               enqueues = []\<rparr> of
         (r1, db1) \<Rightarrow>
           r1 = Inr (Some \<lparr>versionstamp = vts (data_version db + 1)\<rparr>) \<and>
           kv db1 k = Some (Value_U64 18446744073709551615, data_version db + 1) \<and>
           (case atomic_write vts db1
                   \<lparr>checks = [],
                    mutations = [\<lparr>mutation_key = k,
                      mutation_kind = MutationKind_Sum (Value_U64 1)\<rparr>],
                    enqueues = []\<rparr> of
              (r2, db2) \<Rightarrow>
                r2 = Inr (Some \<lparr>versionstamp = vts (data_version db + 2)\<rparr>) \<and>
                kv db2 k = Some (Value_U64 0, data_version db + 2))))"
proof (intro conjI impI)
  assume "tx k = None"
  then show "apply_mutation tx ver
      \<lparr>mutation_key = k, mutation_kind = MutationKind_Sum (Value_U64 n)\<rparr>
        = Inr (tx(k \<mapsto> (Value_U64 n, ver)))"
    by (simp add: mutate_le64_def)
next
  assume "tx k = Some (Value_U64 a, ver0)"
  then show "apply_mutation tx ver
      \<lparr>mutation_key = k, mutation_kind = MutationKind_Sum (Value_U64 n)\<rparr>
        = Inr (tx(k \<mapsto> (Value_U64 (a + n), ver)))"
    by (simp add: mutate_le64_def)
next
  show "unat (a + n) = (unat a + unat n) mod 2 ^ 64"
    by (simp add: unat_word_ariths)
next
  assume "kv db k = None"
  then show "(case atomic_write vts db
              \<lparr>checks = [],
               mutations = [\<lparr>mutation_key = k,
                 mutation_kind = MutationKind_Sum (Value_U64 18446744073709551615)\<rparr>],
               enqueues = []\<rparr> of
         (r1, db1) \<Rightarrow>
           r1 = Inr (Some \<lparr>versionstamp = vts (data_version db + 1)\<rparr>) \<and>
           kv db1 k = Some (Value_U64 18446744073709551615, data_version db + 1) \<and>
           (case atomic_write vts db1
                   \<lparr>checks = [],
                    mutations = [\<lparr>mutation_key = k,
                      mutation_kind = MutationKind_Sum (Value_U64 1)\<rparr>],
                    enqueues = []\<rparr> of
              (r2, db2) \<Rightarrow>
                r2 = Inr (Some \<lparr>versionstamp = vts (data_version db + 2)\<rparr>) \<and>
                kv db2 k = Some (Value_U64 0, data_version db + 2)))"
    by (simp add: atomic_write_def mutate_le64_def Let_def) (simp add: add.commute)
qed

theorem Sum_wraps_witness:
  "apply_mutation Map.empty 1
     \<lparr>mutation_key = [0x61], mutation_kind = MutationKind_Sum (Value_U64 5)\<rparr>
     = Inr (Map.empty([0x61] \<mapsto> (Value_U64 5, 1))) \<and>
   map_sum id (\<lambda>tx. tx [0x61])
     (apply_mutation (Map.empty([0x61] \<mapsto> (Value_U64 18446744073709551615, 1))) 2
        \<lparr>mutation_key = [0x61], mutation_kind = MutationKind_Sum (Value_U64 3)\<rparr>)
     = Inr (Some (Value_U64 2, 2)) \<and>
   kv (snd (atomic_write (\<lambda>v. [word_of_int v])
         (snd (atomic_write (\<lambda>v. [word_of_int v]) \<lparr>kv = Map.empty, data_version = 0\<rparr>
            \<lparr>checks = [],
             mutations = [\<lparr>mutation_key = [0x61],
               mutation_kind = MutationKind_Sum (Value_U64 18446744073709551615)\<rparr>],
             enqueues = []\<rparr>))
         \<lparr>checks = [],
          mutations = [\<lparr>mutation_key = [0x61], mutation_kind = MutationKind_Sum (Value_U64 1)\<rparr>],
          enqueues = []\<rparr>)) [0x61]
   = Some (Value_U64 0, 2)"
proof -
  have a: "apply_mutation Map.empty 1
     \<lparr>mutation_key = [0x61], mutation_kind = MutationKind_Sum (Value_U64 5)\<rparr>
     = Inr (Map.empty([0x61] \<mapsto> (Value_U64 5, 1)))"
    using Sum_wraps [THEN conjunct1, of Map.empty "[0x61]" 1 5] by simp
  have b: "map_sum id (\<lambda>tx. tx [0x61])
     (apply_mutation (Map.empty([0x61] \<mapsto> (Value_U64 18446744073709551615, 1))) 2
        \<lparr>mutation_key = [0x61], mutation_kind = MutationKind_Sum (Value_U64 3)\<rparr>)
     = Inr (Some (Value_U64 2, 2))"
    using Sum_wraps [THEN conjunct2, THEN conjunct1,
        of "Map.empty([0x61] \<mapsto> (Value_U64 18446744073709551615, 1))" "[0x61]"
           18446744073709551615 1 2 3]
    by simp
  have c: "kv (snd (atomic_write (\<lambda>v. [word_of_int v])
         (snd (atomic_write (\<lambda>v. [word_of_int v]) \<lparr>kv = Map.empty, data_version = 0\<rparr>
            \<lparr>checks = [],
             mutations = [\<lparr>mutation_key = [0x61],
               mutation_kind = MutationKind_Sum (Value_U64 18446744073709551615)\<rparr>],
             enqueues = []\<rparr>))
         \<lparr>checks = [],
          mutations = [\<lparr>mutation_key = [0x61], mutation_kind = MutationKind_Sum (Value_U64 1)\<rparr>],
          enqueues = []\<rparr>)) [0x61]
   = Some (Value_U64 0, 2)"
    using Sum_wraps [THEN conjunct2, THEN conjunct2, THEN mp,
      of "\<lparr>kv = Map.empty, data_version = 0\<rparr>" "[0x61]" "\<lambda>v. [word_of_int v]"]
    by (simp split: prod.splits)
  from a b c show ?thesis by (intro conjI)
qed

section \<open>Kv and AtomicOperation\<close>

lemma rejected_absent:
  "\<exists>key \<in> set keys. db key = None \<Longrightarrow> rejected (map (Kv_get JSON_parse db) keys) \<noteq> []"
proof (induction keys)
  case Nil
  then show ?case by simp
next
  case (Cons key keys)
  show ?case
  proof (cases "Kv_get JSON_parse db key")
    case (Inl e)
    then show ?thesis by simp
  next
    case (Inr entry)
    then have "db key \<noteq> None"
      by (auto simp: Kv_get_def split: option.splits)
    with Cons.prems have "\<exists>k \<in> set keys. db k = None" by auto
    from Cons.IH [OF this] Inr show ?thesis by simp
  qed
qed

lemma Kv_getMany_absent:
  "\<exists>key \<in> set keys. db key = None \<Longrightarrow>
   \<exists>e. Kv_getMany JSON_parse settles_first db keys = Inl e"
  using rejected_absent [of keys db JSON_parse] by (simp add: Kv_getMany_def Let_def)

text \<open>
  C10. For a key with no row in the table \<^verbatim>\<open>Kv.get\<close> throws a TypeError (it destructures
  the \<^verbatim>\<open>undefined\<close> the point query resolves to), and \<^verbatim>\<open>Kv.getMany\<close> rejects as soon
  as one of its keys has no row.
\<close>

theorem Kv_get_absent_key:
  "(db key = None \<longrightarrow> Kv_get JSON_parse db key = Inl TypeError) \<and>
   ((\<exists>k \<in> set keys. db k = None) \<longrightarrow>
      (\<exists>e. Kv_getMany JSON_parse settles_first db keys = Inl e))"
  using Kv_getMany_absent [of keys db JSON_parse settles_first] by (simp add: Kv_get_def)

theorem Kv_get_absent_key_witness:
  "Kv_get (\<lambda>v. Inr v) (Map.empty([KvKeyPart_string ''a''] \<mapsto>
       \<lparr>row_value = JsString ''1'', row_versionstamp = JsString ''v1''\<rparr>))
     [KvKeyPart_string ''b''] = Inl TypeError \<and>
   (\<exists>e. Kv_getMany (\<lambda>v. Inr v) last (Map.empty([KvKeyPart_string ''a''] \<mapsto>
       \<lparr>row_value = JsString ''1'', row_versionstamp = JsString ''v1''\<rparr>))
     [[KvKeyPart_string ''a''], [KvKeyPart_string ''b'']] = Inl e)"
  using Kv_get_absent_key [of "Map.empty([KvKeyPart_string ''a''] \<mapsto>
       \<lparr>row_value = JsString ''1'', row_versionstamp = JsString ''v1''\<rparr>)"
      "[KvKeyPart_string ''b'']" "\<lambda>v. Inr v"
      "[[KvKeyPart_string ''a''], [KvKeyPart_string ''b'']]" last]
  by simp

text \<open>
  C9, as stated, has the first call of any of \<^verbatim>\<open>check\<close>, \<^verbatim>\<open>set\<close>, \<^verbatim>\<open>delete\<close>,
  \<^verbatim>\<open>sum\<close>, \<^verbatim>\<open>min\<close>, \<^verbatim>\<open>max\<close> and \<^verbatim>\<open>mutate\<close> on a fresh operation throw a
  TypeError. \<^verbatim>\<open>mutate()\<close> without arguments never touches \<^verbatim>\<open>#mutations\<close> and returns
  the operation.
\<close>

theorem mutate_without_arguments_returns:
  "AtomicOperation_mutate (\<lambda>v. Inr []) (Kv_atomic Map.empty) [] = (None, Kv_atomic Map.empty)"
  by simp

lemma push_mutation_fresh:
  "push_mutation (AtomicOperation_constructor db) key t raw = Inl TypeError"
  by (simp add: push_mutation_def AtomicOperation_constructor_def)

text \<open>
  C9, amended. On the operation \<^verbatim>\<open>Kv.atomic()\<close> returns, whose \<^verbatim>\<open>#checks\<close> and
  \<^verbatim>\<open>#mutations\<close> are undefined, \<^verbatim>\<open>check\<close>, \<^verbatim>\<open>set\<close>, \<^verbatim>\<open>delete\<close>, \<^verbatim>\<open>sum\<close>,
  \<^verbatim>\<open>min\<close> and \<^verbatim>\<open>max\<close> throw a TypeError whatever their arguments; \<^verbatim>\<open>mutate\<close> with at
  least one mutation throws and leaves the operation as it was, and what it throws is a
  TypeError unless the first mutation's own switch throws something else (the serializer
  can); \<^verbatim>\<open>Kv.set\<close> throws a TypeError for every key and value.
\<close>

theorem fresh_AtomicOperation_throws:
  "AtomicOperation_check (Kv_atomic db) cs = Inl TypeError \<and>
   AtomicOperation_set serialize (Kv_atomic db) key v = Inl TypeError \<and>
   AtomicOperation_delete (Kv_atomic db) key = Inl TypeError \<and>
   AtomicOperation_sum serialize (Kv_atomic db) key n = Inl TypeError \<and>
   AtomicOperation_min serialize (Kv_atomic db) key n = Inl TypeError \<and>
   AtomicOperation_max serialize (Kv_atomic db) key n = Inl TypeError \<and>
   (\<exists>e. AtomicOperation_mutate serialize (Kv_atomic db) (m # ms) = (Some e, Kv_atomic db)) \<and>
   ((\<forall>e. mutate_switch serialize m = Inl e \<longrightarrow> e = TypeError) \<longrightarrow>
      AtomicOperation_mutate serialize (Kv_atomic db) (m # ms) = (Some TypeError, Kv_atomic db)) \<and>
   Kv_set serialize db key v = Inl TypeError"
proof -
  let ?ao = "Kv_atomic db"
  have push: "push_mutation ?ao k t raw = Inl TypeError" for k t raw
    by (simp add: Kv_atomic_def push_mutation_fresh)
  have mut: "AtomicOperation_mutate serialize ?ao (m # ms) =
      (Some (case mutate_switch serialize m of Inl e \<Rightarrow> e | Inr _ \<Rightarrow> TypeError), ?ao)"
    by (simp add: push split: sum.splits prod.splits)
  have "AtomicOperation_check ?ao cs = Inl TypeError"
    by (simp add: AtomicOperation_check_def Kv_atomic_def AtomicOperation_constructor_def)
  moreover have "AtomicOperation_set serialize ?ao key v = Inl TypeError"
    by (simp add: AtomicOperation_set_def push)
  moreover have "AtomicOperation_delete ?ao key = Inl TypeError"
    by (simp add: AtomicOperation_delete_def push)
  moreover have "AtomicOperation_sum serialize ?ao key n = Inl TypeError"
    by (simp add: AtomicOperation_sum_def push)
  moreover have "AtomicOperation_min serialize ?ao key n = Inl TypeError"
    by (simp add: AtomicOperation_min_def push)
  moreover have "AtomicOperation_max serialize ?ao key n = Inl TypeError"
    by (simp add: AtomicOperation_max_def push)
  moreover have "\<exists>e. AtomicOperation_mutate serialize ?ao (m # ms) = (Some e, ?ao)"
    using mut by blast
  moreover have "(\<forall>e. mutate_switch serialize m = Inl e \<longrightarrow> e = TypeError) \<longrightarrow>
      AtomicOperation_mutate serialize ?ao (m # ms) = (Some TypeError, ?ao)"
    unfolding mut by (auto split: sum.splits)
  moreover have "Kv_set serialize db key v = Inl TypeError"
    by (simp add: Kv_set_def AtomicOperation_set_def push)
  ultimately show ?thesis by blast
qed

theorem fresh_AtomicOperation_throws_witness:
  "AtomicOperation_set (\<lambda>v. Inr []) (Kv_atomic Map.empty) [KvKeyPart_string ''a''] (JsString ''x'')
     = Inl TypeError \<and>
   AtomicOperation_mutate (\<lambda>v. Inr []) (Kv_atomic Map.empty)
     [\<lparr>m_key = [KvKeyPart_string ''a''], m_type = ''set'', m_value = Some (JsString ''x'')\<rparr>]
     = (Some TypeError, Kv_atomic Map.empty) \<and>
   Kv_set (\<lambda>v. Inr []) Map.empty [KvKeyPart_string ''a''] (JsString ''x'') = Inl TypeError"
  using fresh_AtomicOperation_throws [of Map.empty "[]" "\<lambda>v. Inr []" "[KvKeyPart_string ''a'']"
      "JsString ''x''" 0
      "\<lparr>m_key = [KvKeyPart_string ''a''], m_type = ''set'', m_value = Some (JsString ''x'')\<rparr>"
      "[]"]
  by (simp add: mutate_switch_def serializeValue_def)

section \<open>The list iterator\<close>

lemma next_when_done:
  "it_done this \<or> (\<exists>l. it_limit this = Some l \<and> l \<le> int (it_count this)) \<Longrightarrow>
   KvListIterator_next enc (this, w) = (Inr IterDone, this, w)"
  by (auto simp: KvListIterator_next_def)

lemma pop_entry_done:
  "pop_entry this = (IterDone, this') \<Longrightarrow> it_done this'"
  by (auto simp: pop_entry_def split: option.splits if_splits)

lemma next_done_state:
  assumes "KvListIterator_next enc (this, w) = (Inr IterDone, this', w')"
  shows "it_done this' \<or> (\<exists>l. it_limit this' = Some l \<and> l \<le> int (it_count this'))"
proof (cases "it_done this \<or> (\<exists>l. it_limit this = Some l \<and> l \<le> int (it_count this))")
  case True
  with assms next_when_done [OF True, of enc w] show ?thesis by simp
next
  case False
  then have early: "\<not> (it_done this \<or>
      (case it_limit this of None \<Rightarrow> False | Some l \<Rightarrow> l \<le> int (it_count this)))"
    by (auto split: option.splits)
  obtain r w1 where f: "fill_buffer enc this w = (r, w1)"
    by (cases "fill_buffer enc this w")
  show ?thesis
  proof (cases r)
    case (Inl e)
    with assms early f show ?thesis
      by (simp add: KvListIterator_next_def)
  next
    case (Inr this1)
    obtain res this2 where p: "pop_entry this1 = (res, this2)"
      by (cases "pop_entry this1")
    with assms early f Inr have "res = IterDone" "this2 = this'"
      by (simp_all add: KvListIterator_next_def)
    with p pop_entry_done show ?thesis by blast
  qed
qed

text \<open>
  C7. The iterator is fused. Once a call of \<^verbatim>\<open>next\<close> has returned done, every later call
  returns done again, whatever their number \<open>n\<close>: the iterator and the storage stay as
  that call left them, and the count of \<^verbatim>\<open>pullBatch\<close> scans does not move.
\<close>

theorem KvListIterator_fused:
  assumes "KvListIterator_next enc s = (Inr IterDone, s')"
  shows "KvListIterator_next enc (((\<lambda>x. snd (KvListIterator_next enc x)) ^^ n) s')
           = (Inr IterDone, s') \<and>
         scans (snd (((\<lambda>x. snd (KvListIterator_next enc x)) ^^ n) s')) = scans (snd s')"
proof -
  obtain this w where s: "s = (this, w)" by (cases s)
  obtain this' w' where s': "s' = (this', w')" by (cases s')
  from assms s s' have fixed: "KvListIterator_next enc s' = (Inr IterDone, s')"
    using next_when_done [OF next_done_state, of enc this w this' w' enc w'] by simp
  have "((\<lambda>x. snd (KvListIterator_next enc x)) ^^ n) s' = s'"
    by (induction n) (simp_all add: fixed)
  with fixed show ?thesis by simp
qed

theorem KvListIterator_fused_witness:
  "fst (KvListIterator_next (\<lambda>sel k. Inr ''c'')
      (\<lparr>it_selector = \<lparr>sel_prefix = Some [], sel_start = None, sel_end = None\<rparr>,
        it_entries = None, it_cursorGen = None, it_done = False, it_lastBatch = False,
        it_pullBatch = (\<lambda>st sel c r cons. (Inr [], st)), it_limit = None, it_count = 0,
        it_reverse = False, it_batchSize = 2, it_consistency = strong\<rparr>,
       \<lparr>storage = (), scans = 0\<rparr>)) = Inr IterDone \<and>
   scans (snd (((\<lambda>x. snd (KvListIterator_next (\<lambda>sel k. Inr ''c'') x)) ^^ 3)
     (snd (KvListIterator_next (\<lambda>sel k. Inr ''c'')
      (\<lparr>it_selector = \<lparr>sel_prefix = Some [], sel_start = None, sel_end = None\<rparr>,
        it_entries = None, it_cursorGen = None, it_done = False, it_lastBatch = False,
        it_pullBatch = (\<lambda>st sel c r cons. (Inr [], st)), it_limit = None, it_count = 0,
        it_reverse = False, it_batchSize = 2, it_consistency = strong\<rparr>,
       \<lparr>storage = (), scans = 0\<rparr>))))) = 1"
proof -
  let ?enc = "\<lambda>sel k. Inr ''c''"
  let ?s = "(\<lparr>it_selector = \<lparr>sel_prefix = Some [], sel_start = None, sel_end = None\<rparr>,
        it_entries = None, it_cursorGen = None, it_done = False, it_lastBatch = False,
        it_pullBatch = (\<lambda>st sel c r cons. (Inr [], st)), it_limit = None, it_count = 0,
        it_reverse = False, it_batchSize = 2, it_consistency = strong\<rparr>,
       \<lparr>storage = (), scans = 0\<rparr>)"
  have run: "KvListIterator_next ?enc ?s = (Inr IterDone, snd (KvListIterator_next ?enc ?s))"
    by (simp add: KvListIterator_next_def fill_buffer_def pop_entry_def)
  have one: "scans (snd (snd (KvListIterator_next ?enc ?s))) = 1"
    by (simp add: KvListIterator_next_def fill_buffer_def pop_entry_def)
  from KvListIterator_fused [OF run, of 3] run one show ?thesis
    by (metis fst_conv)
qed

text \<open>
  C8, as stated, has the cursor getter throw before the first entry is yielded, however the
  iterator was constructed. An iterator constructed with the resume cursor \<^verbatim>\<open>"abc"\<close>
  returns that cursor from the getter before \<^verbatim>\<open>next\<close> was ever called.
\<close>

theorem cursor_of_resumed_iterator:
  "(case KvListIterator_constructor None
           \<lparr>sel_prefix = Some [], sel_start = None, sel_end = None\<rparr> (Some ''abc'') False strong 10
           (\<lambda>st sel c r cons. (Inr [], st :: unit)) of
      Inl e \<Rightarrow> None
    | Inr this \<Rightarrow> Some (it_count this, KvListIterator_cursor (\<lambda>sel k. Inr ''c'') this))
   = Some (0, Inr ''abc'')"
  by (simp add: KvListIterator_constructor_def constructor_selector_def
      KvListIterator_cursor_def call_cursorGen_def)

lemma constructor_cursorGen:
  "KvListIterator_constructor limit selector cursor_opt reverse consistency batchSize pullBatch
     = Inr this \<Longrightarrow>
   it_cursorGen this =
     (case cursor_opt of None \<Rightarrow> None
      | Some c \<Rightarrow> if c \<noteq> [] then Some (ConstCursor c) else None)"
  by (auto simp: KvListIterator_constructor_def split: sum.splits)

lemma fill_buffer_keeps:
  "fill_buffer enc this w = (Inr this1, w1) \<Longrightarrow>
   it_selector this1 = it_selector this \<and> it_cursorGen this1 = it_cursorGen this"
  by (auto simp: fill_buffer_def split: if_splits sum.splits prod.splits)

lemma pop_entry_cursorGen:
  "pop_entry this = (r, this') \<Longrightarrow>
   it_selector this' = it_selector this \<and>
   it_cursorGen this' =
     (case r of IterDone \<Rightarrow> Some (ConstCursor [])
      | IterValue e \<Rightarrow> Some (EntryCursor (entry_key e)))"
  by (auto simp: pop_entry_def split: option.splits if_splits)

lemma next_cursorGen:
  assumes "KvListIterator_next enc (this, w) = (r, this', w')"
  shows "it_selector this' = it_selector this \<and>
     it_cursorGen this' =
       (case r of
          Inl ex \<Rightarrow> it_cursorGen this
        | Inr (IterValue e) \<Rightarrow> Some (EntryCursor (entry_key e))
        | Inr IterDone \<Rightarrow>
            if it_done this \<or> (\<exists>l. it_limit this = Some l \<and> l \<le> int (it_count this))
            then it_cursorGen this else Some (ConstCursor []))"
proof (cases "it_done this \<or> (\<exists>l. it_limit this = Some l \<and> l \<le> int (it_count this))")
  case True
  from next_when_done [OF True] have "KvListIterator_next enc (this, w) = (Inr IterDone, this, w)" .
  with assms have "r = Inr IterDone" "this' = this" by simp_all
  with True show ?thesis by simp
next
  case False
  then have early: "\<not> (it_done this \<or>
      (case it_limit this of None \<Rightarrow> False | Some l \<Rightarrow> l \<le> int (it_count this)))"
    by (auto split: option.splits)
  obtain f w1 where f: "fill_buffer enc this w = (f, w1)"
    by (cases "fill_buffer enc this w")
  show ?thesis
  proof (cases f)
    case (Inl e)
    with assms early f show ?thesis
      by (auto simp: KvListIterator_next_def)
  next
    case (Inr this1)
    obtain res this2 where p: "pop_entry this1 = (res, this2)"
      by (cases "pop_entry this1")
    with assms early f Inr have r: "r = Inr res" "this2 = this'"
      by (simp_all add: KvListIterator_next_def)
    from f Inr have "fill_buffer enc this w = (Inr this1, w1)" by simp
    from fill_buffer_keeps [OF this] have
      k1: "it_selector this1 = it_selector this" and k2: "it_cursorGen this1 = it_cursorGen this"
      by simp_all
    from pop_entry_cursorGen [OF p] have
      p1: "it_selector this2 = it_selector this1" and
      p2: "it_cursorGen this2 =
        (case res of IterDone \<Rightarrow> Some (ConstCursor [])
         | IterValue e \<Rightarrow> Some (EntryCursor (entry_key e)))"
      by simp_all
    have "it_selector this' = it_selector this"
      using k1 p1 r(2) by simp
    moreover have "it_cursorGen this' =
        (case r of
          Inl ex \<Rightarrow> it_cursorGen this
        | Inr (IterValue e) \<Rightarrow> Some (EntryCursor (entry_key e))
        | Inr IterDone \<Rightarrow>
            if it_done this \<or> (\<exists>l. it_limit this = Some l \<and> l \<le> int (it_count this))
            then it_cursorGen this else Some (ConstCursor []))"
    proof (cases res)
      case IterDone
      with p2 r have "it_cursorGen this' = Some (ConstCursor [])" by simp
      with False r IterDone show ?thesis by auto
    next
      case (IterValue e)
      with p2 r show ?thesis by simp
    qed
    ultimately show ?thesis by simp
  qed
qed

lemma cursor_same:
  "it_selector a = it_selector b \<Longrightarrow> it_cursorGen a = it_cursorGen b \<Longrightarrow>
   KvListIterator_cursor enc a = KvListIterator_cursor enc b"
  by (simp add: KvListIterator_cursor_def cong: option.case_cong)

lemma cursor_ConstCursor:
  "it_cursorGen a = Some (ConstCursor c) \<Longrightarrow> KvListIterator_cursor enc a = Inr c"
  by (simp add: KvListIterator_cursor_def call_cursorGen_def)

lemma cursor_EntryCursor:
  "it_cursorGen a = Some (EntryCursor k) \<Longrightarrow>
   KvListIterator_cursor enc a =
     enc (sel_prefix (it_selector a), sel_start (it_selector a), sel_end (it_selector a)) k"
  by (simp add: KvListIterator_cursor_def call_cursorGen_def)

text \<open>
  C8, amended. The getter of a new iterator throws "Cannot get cursor before first
  iteration" when no resume cursor (or the empty string) was given to the constructor, and
  returns the resume cursor when one was given. A call of \<^verbatim>\<open>next\<close> that yields an entry
  makes the getter return the cursor encoded from the selector and the key of that entry; a
  call that finds the range exhausted makes it return the empty string; a call that returns
  done because the iterator was done or at its limit already, or that throws, leaves the
  getter as it was.
\<close>

theorem KvListIterator_cursor_getter:
  "(KvListIterator_constructor limit selector cursor_opt reverse consistency batchSize pullBatch
      = Inr new \<longrightarrow>
    KvListIterator_cursor enc new =
      (case cursor_opt of
         None \<Rightarrow> Inl (Error ''Cannot get cursor before first iteration'')
       | Some c \<Rightarrow>
           if c \<noteq> [] then Inr c
           else Inl (Error ''Cannot get cursor before first iteration''))) \<and>
   (KvListIterator_next enc (this, w) = (r, this', w') \<longrightarrow>
    KvListIterator_cursor enc this' =
      (case r of
         Inl ex \<Rightarrow> KvListIterator_cursor enc this
       | Inr (IterValue e) \<Rightarrow>
           enc (sel_prefix (it_selector this), sel_start (it_selector this),
                sel_end (it_selector this)) (entry_key e)
       | Inr IterDone \<Rightarrow>
           if it_done this \<or> (\<exists>l. it_limit this = Some l \<and> l \<le> int (it_count this))
           then KvListIterator_cursor enc this else Inr []))"
proof (intro conjI impI)
  assume "KvListIterator_constructor limit selector cursor_opt reverse consistency batchSize
      pullBatch = Inr new"
  from constructor_cursorGen [OF this] have gen: "it_cursorGen new =
     (case cursor_opt of None \<Rightarrow> None
      | Some c \<Rightarrow> if c \<noteq> [] then Some (ConstCursor c) else None)" .
  show "KvListIterator_cursor enc new =
      (case cursor_opt of
         None \<Rightarrow> Inl (Error ''Cannot get cursor before first iteration'')
       | Some c \<Rightarrow>
           if c \<noteq> [] then Inr c
           else Inl (Error ''Cannot get cursor before first iteration''))"
  proof (cases cursor_opt)
    case None
    with gen show ?thesis by (simp add: KvListIterator_cursor_def)
  next
    case (Some c)
    with gen show ?thesis by (simp add: KvListIterator_cursor_def call_cursorGen_def)
  qed
next
  assume "KvListIterator_next enc (this, w) = (r, this', w')"
  from next_cursorGen [OF this] have
    sel: "it_selector this' = it_selector this" and
    gen: "it_cursorGen this' =
       (case r of
          Inl ex \<Rightarrow> it_cursorGen this
        | Inr (IterValue e) \<Rightarrow> Some (EntryCursor (entry_key e))
        | Inr IterDone \<Rightarrow>
            if it_done this \<or> (\<exists>l. it_limit this = Some l \<and> l \<le> int (it_count this))
            then it_cursorGen this else Some (ConstCursor []))"
    by simp_all
  show "KvListIterator_cursor enc this' =
      (case r of
         Inl ex \<Rightarrow> KvListIterator_cursor enc this
       | Inr (IterValue e) \<Rightarrow>
           enc (sel_prefix (it_selector this), sel_start (it_selector this),
                sel_end (it_selector this)) (entry_key e)
       | Inr IterDone \<Rightarrow>
           if it_done this \<or> (\<exists>l. it_limit this = Some l \<and> l \<le> int (it_count this))
           then KvListIterator_cursor enc this else Inr [])"
  proof (cases r)
    case (Inl ex)
    with gen have "it_cursorGen this' = it_cursorGen this" by simp
    from cursor_same [OF sel this] Inl show ?thesis by simp
  next
    case (Inr res)
    show ?thesis
    proof (cases res)
      case IterDone
      show ?thesis
      proof (cases "it_done this \<or> (\<exists>l. it_limit this = Some l \<and> l \<le> int (it_count this))")
        case True
        with Inr IterDone gen have "it_cursorGen this' = it_cursorGen this" by simp
        from cursor_same [OF sel this] Inr IterDone True show ?thesis by simp
      next
        case False
        with Inr IterDone gen have "it_cursorGen this' = Some (ConstCursor [])" by simp
        from cursor_ConstCursor [OF this, of enc] Inr IterDone False show ?thesis by auto
      qed
    next
      case (IterValue e)
      with Inr gen have "it_cursorGen this' = Some (EntryCursor (entry_key e))" by simp
      from cursor_EntryCursor [OF this] Inr IterValue sel show ?thesis by simp
    qed
  qed
qed


theorem KvListIterator_cursor_getter_witness:
  "(case KvListIterator_constructor None
           \<lparr>sel_prefix = Some [], sel_start = None, sel_end = None\<rparr> None False strong 10
           (\<lambda>st sel c r cons. (Inr [\<lparr>entry_key = [KvKeyPart_string ''a''],
                entry_value = JsNull, entry_versionstamp = ''v1''\<rparr>], st :: unit)) of
      Inl e \<Rightarrow> False
    | Inr new \<Rightarrow>
        KvListIterator_cursor (\<lambda>sel k. Inr ''c'') new
          = Inl (Error ''Cannot get cursor before first iteration'') \<and>
        (case KvListIterator_next (\<lambda>sel k. Inr ''c'') (new, \<lparr>storage = (), scans = 0\<rparr>) of
           (r, this', w') \<Rightarrow>
             r = Inr (IterValue \<lparr>entry_key = [KvKeyPart_string ''a''],
                entry_value = JsNull, entry_versionstamp = ''v1''\<rparr>) \<and>
             KvListIterator_cursor (\<lambda>sel k. Inr ''c'') this' = Inr ''c''))"
proof -
  let ?e = "\<lparr>entry_key = [KvKeyPart_string ''a''],
                entry_value = JsNull, entry_versionstamp = ''v1''\<rparr>"
  let ?pb = "\<lambda>st sel c r cons. (Inr [?e], st :: unit)"
  let ?enc = "\<lambda>sel k. Inr ''c''"
  let ?new = "\<lparr>it_selector = \<lparr>sel_prefix = Some [], sel_start = None, sel_end = None\<rparr>,
        it_entries = None, it_cursorGen = None, it_done = False, it_lastBatch = False,
        it_pullBatch = ?pb, it_limit = None, it_count = 0,
        it_reverse = False, it_batchSize = 10, it_consistency = strong\<rparr>"
  have c: "KvListIterator_constructor None
           \<lparr>sel_prefix = Some [], sel_start = None, sel_end = None\<rparr> None False strong 10 ?pb
        = Inr ?new"
    by (simp add: KvListIterator_constructor_def constructor_selector_def)
  let ?next = "\<lparr>it_selector = \<lparr>sel_prefix = Some [], sel_start = None, sel_end = None\<rparr>,
        it_entries = Some [], it_cursorGen = Some (EntryCursor [KvKeyPart_string ''a'']),
        it_done = False, it_lastBatch = True,
        it_pullBatch = ?pb, it_limit = None, it_count = Suc 0,
        it_reverse = False, it_batchSize = 10, it_consistency = strong\<rparr>"
  have n: "KvListIterator_next ?enc (?new, \<lparr>storage = (), scans = 0\<rparr>)
      = (Inr (IterValue ?e), ?next, \<lparr>storage = (), scans = Suc 0\<rparr>)"
    by (simp add: KvListIterator_next_def fill_buffer_def pop_entry_def)
  have g1: "KvListIterator_cursor ?enc ?new
      = Inl (Error ''Cannot get cursor before first iteration'')"
    using KvListIterator_cursor_getter [where enc = ?enc, THEN conjunct1, THEN mp, OF c]
    by simp
  have g2: "KvListIterator_cursor ?enc ?next = Inr ''c''"
    using KvListIterator_cursor_getter [where enc = ?enc, THEN conjunct2, THEN mp, OF n]
    by simp
  show ?thesis
    apply (subst c)
    apply (simp only: sum.case)
    apply (subst n)
    apply (simp only: prod.case)
    apply (rule conjI [OF g1])
    apply (rule conjI [OF refl g2])
    done
qed

end
